theory Spec2Isabelle
  imports Main "HOL-Library.Word" "HOL-Library.Sublist"
begin

section \<open>Strings\<close>

text \<open>
  A JavaScript string is a sequence of UTF-16 code units. The literals of the source are
  ASCII; \<open>js\<close> turns an ASCII literal into its code units.
\<close>

type_synonym jsstring = "16 word list"

definition js :: "string \<Rightarrow> jsstring" where
  "js s = map of_char s"

text \<open>
  \<open>String.prototype.trim\<close> removes the code units of the ECMAScript productions
  WhiteSpace (TAB, VT, FF, ZWNBSP and the Unicode space separators) and LineTerminator
  (LF, CR, LS, PS) from both ends.
\<close>

definition isWhiteSpace :: "16 word \<Rightarrow> bool" where
  "isWhiteSpace c \<longleftrightarrow>
     c = 0x0009 \<or> c = 0x000A \<or> c = 0x000B \<or> c = 0x000C \<or> c = 0x000D \<or>
     c = 0x0020 \<or> c = 0x00A0 \<or> c = 0x1680 \<or> (0x2000 \<le> c \<and> c \<le> 0x200A) \<or>
     c = 0x2028 \<or> c = 0x2029 \<or> c = 0x202F \<or> c = 0x205F \<or> c = 0x3000 \<or> c = 0xFEFF"

definition trim :: "jsstring \<Rightarrow> jsstring" where
  "trim s = rev (dropWhile isWhiteSpace (rev (dropWhile isWhiteSpace s)))"

definition startsWith :: "jsstring \<Rightarrow> jsstring \<Rightarrow> bool" where
  "startsWith s p = prefix p s"

section \<open>Values of the environment\<close>

text \<open>
  A \<open>File\<close> record stands for one browser \<open>File\<close> object: its name, its declared media type
  (\<open>file.type\<close>) and its content.
\<close>

record File =
  name :: jsstring
  type :: jsstring
  bytes :: "8 word list"

text \<open>
  What a \<open>throw\<close> or a rejected promise carries: an \<open>Error\<close> object with its message,
  or any other value (\<open>err instanceof Error\<close> is false for it).
\<close>

datatype thrown = ErrorObj jsstring | OtherValue

text \<open>The request handed to \<open>ai.models.generateContent\<close> and what the call settles with.\<close>

datatype part = InlineData jsstring jsstring | TextPart jsstring

record request =
  model :: jsstring
  parts :: "part list"

record response =
  response_text :: "jsstring option"

datatype api_result = Resolved "response option" | Rejected thrown

section \<open>The Generation Client: \<open>generatePromptFromImage\<close>\<close>

definition textPart :: part where
  "textPart = TextPart
     (js ''You are an expert at writing detailed, descriptive, and artistic prompts for generative AI image models. ''
      @ [0x000A] @
      js ''    Describe the following image in a way that captures its essence, style, and key elements to be used as a prompt. ''
      @ [0x000A] @
      js ''    Focus on visual details: composition, colors, lighting, subject matter, and mood. Be concise but evocative.'')"

definition emptyResponseMessage :: jsstring where
  "emptyResponseMessage = js ''The API response was empty or invalid.''"

text \<open>
  The \<open>catch\<close> block of \<open>generatePromptFromImage\<close>. It receives whatever was thrown inside
  the \<open>try\<close>: a rejection of the API call, and also the \<open>Error\<close> the \<open>try\<close> block itself
  throws for an empty response.
\<close>

definition client_catch :: "thrown \<Rightarrow> thrown" where
  "client_catch err =
     (case err of
        ErrorObj message \<Rightarrow> ErrorObj (js ''Gemini API Error: '' @ message)
      | OtherValue \<Rightarrow>
          ErrorObj (js ''An unknown error occurred while communicating with the Gemini API.''))"

text \<open>
  The value of \<open>response && response.text\<close> when it is truthy: the response is there,
  has a text, and the text is not the empty string.
\<close>

definition responseText :: "response option \<Rightarrow> jsstring option" where
  "responseText ro =
     (case ro of
        None \<Rightarrow> None
      | Some r \<Rightarrow>
          (case response_text r of
             None \<Rightarrow> None
           | Some t \<Rightarrow> if t = [] then None else Some t))"

definition clientRequest :: "jsstring \<Rightarrow> jsstring \<Rightarrow> request" where
  "clientRequest imageData mimeType =
     \<lparr>model = js ''gemini-2.5-flash'',
      parts = [InlineData imageData mimeType, textPart]\<rparr>"

text \<open>
  \<open>generateContent\<close> is the API call of the environment. The result is \<open>Inr\<close> of the text
  the promise resolves with, or \<open>Inl\<close> of what it rejects with.
\<close>

definition generatePromptFromImage ::
  "(request \<Rightarrow> api_result) \<Rightarrow> jsstring \<Rightarrow> jsstring \<Rightarrow> thrown + jsstring" where
  "generatePromptFromImage generateContent imageData mimeType =
     (case generateContent (clientRequest imageData mimeType) of
        Resolved response \<Rightarrow>
          (case responseText response of
             Some t \<Rightarrow> Inr (trim t)
           | None \<Rightarrow> Inl (client_catch (ErrorObj emptyResponseMessage)))
      | Rejected err \<Rightarrow> Inl (client_catch err))"

section \<open>The Interaction Controller: \<open>App\<close>\<close>

datatype AppStatus = Idle | Uploading | Previewing | Generating | Success | Error

text \<open>
  The six \<open>useState\<close> cells and the \<open>useMemo\<close> value \<open>imageUrl\<close> of the component,
  followed by the part of the browser the handlers act on:
  \<^item> \<open>objectUrls\<close>: the object URLs created and not yet revoked, \<open>urlCounter\<close> the next
    fresh one;
  \<^item> \<open>clipboard\<close>: the text last handed to \<open>navigator.clipboard.writeText\<close>;
  \<^item> \<open>clock\<close> (in ms) and \<open>timers\<close>: the due times of the pending
    \<open>setTimeout(() => setCopySuccess(false), 2000)\<close> callbacks;
  \<^item> \<open>inFlight\<close>: the calls of \<open>handleGeneratePrompt\<close> suspended at an \<open>await\<close>, each
    with the \<open>imageFile\<close> its closure captured;
  \<^item> \<open>clientCalls\<close>: the arguments of every call of \<open>generatePromptFromImage\<close> so far.
\<close>

record app =
  imageFile :: "File option"
  generatedPrompt :: jsstring
  error :: jsstring
  status :: AppStatus
  copySuccess :: bool
  isDragging :: bool
  imageUrl :: "nat option"
  objectUrls :: "nat list"
  urlCounter :: nat
  clipboard :: "jsstring option"
  clock :: nat
  timers :: "nat list"
  inFlight :: "File list"
  clientCalls :: "(jsstring \<times> jsstring) list"

definition initial :: app where
  "initial =
     \<lparr>imageFile = None, generatedPrompt = [], error = [], status = Idle,
      copySuccess = False, isDragging = False, imageUrl = None,
      objectUrls = [], urlCounter = 0, clipboard = None, clock = 0, timers = [],
      inFlight = [], clientCalls = []\<rparr>"

definition processFile :: "File \<Rightarrow> app \<Rightarrow> app" where
  "processFile f w =
     (if \<not> startsWith (type f) (js ''image/'')
      then w\<lparr>error := js ''Please select a valid image file.'', status := Error,
             imageFile := None\<rparr>
      else w\<lparr>imageFile := Some f, generatedPrompt := [], error := [],
             status := Previewing\<rparr>)"

definition handleImageChange :: "File option \<Rightarrow> app \<Rightarrow> app" where
  "handleImageChange fo w = (case fo of Some f \<Rightarrow> processFile f w | None \<Rightarrow> w)"

text \<open>
  \<open>handleGeneratePrompt\<close> up to its first \<open>await\<close>: without an image it returns at once;
  with one it suspends, and the suspended call joins \<open>inFlight\<close>.
\<close>

definition handleGeneratePrompt :: "app \<Rightarrow> app" where
  "handleGeneratePrompt w =
     (case imageFile w of
        None \<Rightarrow> w\<lparr>error := js ''Please select an image first.'', status := Error\<rparr>
      | Some f \<Rightarrow>
          w\<lparr>status := Generating, error := [], generatedPrompt := [],
            inFlight := inFlight w @ [f]\<rparr>)"

text \<open>
  The \<open>catch\<close> block of \<open>handleGeneratePrompt\<close>. Its \<open>console.error\<close> only logs and
  is left out, as is the one of the Client.
\<close>

definition handler_catch :: "thrown \<Rightarrow> app \<Rightarrow> app" where
  "handler_catch err w =
     (let errorMessage =
            (case err of ErrorObj message \<Rightarrow> message
                       | OtherValue \<Rightarrow> js ''An unknown error occurred.'')
      in w\<lparr>error := js ''Failed to generate prompt: '' @ errorMessage, status := Error\<rparr>)"

text \<open>
  The rest of a suspended call, run on the state \<open>w\<close> of the moment its promises settle.
  \<open>fileToBase64\<close> (\<open>utils/fileUtils\<close>) is awaited inside the \<open>try\<close>; its outcome
  \<open>encoded\<close> is an input: \<open>Inr\<close> of the string it resolves with, or \<open>Inl\<close> of what
  it rejects with. Only when it resolves is the Generation Client called.
\<close>

definition handleGeneratePrompt_resume ::
  "File \<Rightarrow> thrown + jsstring \<Rightarrow> (request \<Rightarrow> api_result) \<Rightarrow> app \<Rightarrow> app" where
  "handleGeneratePrompt_resume f encoded generateContent w =
     (case encoded of
        Inl err \<Rightarrow> handler_catch err w
      | Inr base64Image \<Rightarrow>
          (let mimeType = type f;
               w1 = w\<lparr>clientCalls := clientCalls w @ [(base64Image, mimeType)]\<rparr>
           in case generatePromptFromImage generateContent base64Image mimeType of
                Inr prompt \<Rightarrow> w1\<lparr>generatedPrompt := prompt, status := Success\<rparr>
              | Inl err \<Rightarrow> handler_catch err w1))"

text \<open>
  The suspended call number \<open>i\<close> settles and leaves \<open>inFlight\<close>. Nothing is suspended
  under a number out of range.
\<close>

definition settle ::
  "nat \<Rightarrow> thrown + jsstring \<Rightarrow> (request \<Rightarrow> api_result) \<Rightarrow> app \<Rightarrow> app" where
  "settle i encoded generateContent w =
     (if i < length (inFlight w)
      then handleGeneratePrompt_resume (inFlight w ! i) encoded generateContent
             (w\<lparr>inFlight := take i (inFlight w) @ drop (Suc i) (inFlight w)\<rparr>)
      else w)"

definition handleCopyPrompt :: "app \<Rightarrow> app" where
  "handleCopyPrompt w =
     (if generatedPrompt w \<noteq> []
      then w\<lparr>clipboard := Some (generatedPrompt w), copySuccess := True,
             timers := timers w @ [clock w + 2000]\<rparr>
      else w)"

definition handleReset :: "app \<Rightarrow> app" where
  "handleReset w =
     (let w1 = w\<lparr>imageFile := None, generatedPrompt := [], error := [], status := Idle\<rparr>
      in case imageUrl w of
           Some u \<Rightarrow> w1\<lparr>objectUrls := removeAll u (objectUrls w1)\<rparr>
         | None \<Rightarrow> w1)"

definition handleDragEnter :: "bool \<Rightarrow> app \<Rightarrow> app" where
  "handleDragEnter hasItems w = (if hasItems then w\<lparr>isDragging := True\<rparr> else w)"

definition handleDragLeave :: "app \<Rightarrow> app" where
  "handleDragLeave w = w\<lparr>isDragging := False\<rparr>"

definition handleDrop :: "File option \<Rightarrow> app \<Rightarrow> app" where
  "handleDrop fo w =
     (let w1 = w\<lparr>isDragging := False\<rparr>
      in case fo of Some f \<Rightarrow> processFile f w1 | None \<Rightarrow> w1)"

text \<open>
  The clock advances by \<open>d\<close> ms; every timer due by then runs its callback
  \<open>setCopySuccess(false)\<close>.
\<close>

definition elapse :: "nat \<Rightarrow> app \<Rightarrow> app" where
  "elapse d w =
     (let t = clock w + d;
          due = filter (\<lambda>x. x \<le> t) (timers w)
      in w\<lparr>clock := t, timers := filter (\<lambda>x. t < x) (timers w),
            copySuccess := (if due = [] then copySuccess w else False)\<rparr>)"

text \<open>
  The render after a handler: \<open>useMemo\<close> recomputes \<open>imageUrl\<close> when its dependency
  \<open>imageFile\<close> is no longer the one of the previous render, \<open>old\<close>.
\<close>

definition render :: "File option \<Rightarrow> app \<Rightarrow> app" where
  "render old w =
     (if imageFile w = old then w
      else case imageFile w of
             Some f \<Rightarrow> w\<lparr>imageUrl := Some (urlCounter w),
                          objectUrls := objectUrls w @ [urlCounter w],
                          urlCounter := Suc (urlCounter w)\<rparr>
           | None \<Rightarrow> w\<lparr>imageUrl := None\<rparr>)"

datatype event =
    ImageChange "File option"
  | DragOver
  | DragEnter bool
  | DragLeave
  | Drop "File option"
  | GeneratePrompt
  | Settle nat "thrown + jsstring" "request \<Rightarrow> api_result"
  | CopyPrompt
  | Reset
  | Elapse nat

fun handle :: "event \<Rightarrow> app \<Rightarrow> app" where
  "handle (ImageChange fo) w = handleImageChange fo w"
| "handle DragOver w = w"
| "handle (DragEnter hasItems) w = handleDragEnter hasItems w"
| "handle DragLeave w = handleDragLeave w"
| "handle (Drop fo) w = handleDrop fo w"
| "handle GeneratePrompt w = handleGeneratePrompt w"
| "handle (Settle i encoded generateContent) w = settle i encoded generateContent w"
| "handle CopyPrompt w = handleCopyPrompt w"
| "handle Reset w = handleReset w"
| "handle (Elapse d) w = elapse d w"

definition step :: "event \<Rightarrow> app \<Rightarrow> app" where
  "step ev w = render (imageFile w) (handle ev w)"

fun run :: "event list \<Rightarrow> app \<Rightarrow> app" where
  "run [] w = w"
| "run (ev # evs) w = run evs (step ev w)"

section \<open>Notions the properties are stated with\<close>

text \<open>
  The files of the scenarios, an image and a text file, and three behaviours of the API:
  a rejection, a response without text, and a response whose text has whitespace around it.
\<close>

definition photo_png :: File where
  "photo_png = \<lparr>name = js ''photo.png'', type = js ''image/png'', bytes = [0x89, 0x50]\<rparr>"

definition notes_txt :: File where
  "notes_txt = \<lparr>name = js ''notes.txt'', type = js ''text/plain'', bytes = [0x68, 0x69]\<rparr>"

definition quota :: "request \<Rightarrow> api_result" where
  "quota req = Rejected (ErrorObj (js ''quota exceeded''))"

definition no_text :: "request \<Rightarrow> api_result" where
  "no_text req = Resolved (Some \<lparr>response_text = None\<rparr>)"

definition barn :: "request \<Rightarrow> api_result" where
  "barn req =
     Resolved (Some \<lparr>response_text = Some (js '' A weathered red barn under a stormy sky '')\<rparr>)"

text \<open>
  \<open>stripped raw t\<close>: \<open>t\<close> is \<open>raw\<close> with its leading and trailing whitespace removed,
  said without reference to \<open>trim\<close>.
\<close>

definition stripped :: "jsstring \<Rightarrow> jsstring \<Rightarrow> bool" where
  "stripped raw t \<longleftrightarrow>
     (\<exists>pre suf. raw = pre @ t @ suf \<and> list_all isWhiteSpace pre \<and> list_all isWhiteSpace suf) \<and>
     (t \<noteq> [] \<longrightarrow> \<not> isWhiteSpace (hd t) \<and> \<not> isWhiteSpace (last t))"

text \<open>The time a sequence of events takes.\<close>

fun duration :: "event list \<Rightarrow> nat" where
  "duration [] = 0"
| "duration (Elapse d # evs) = d + duration evs"
| "duration (ev # evs) = duration evs"

text \<open>
  The order of events the mutual exclusion of the two text fields depends on. A file is
  submitted only while no image is stored: the view renders the upload zone under
  \<open>{!imageFile && ...}\<close>. While a call of \<open>handleGeneratePrompt\<close> is suspended, no
  second one is started (the view renders no button for it under the status
  \<open>generating\<close>) and the image is not removed (this the view does not prevent: the
  button "Remove Image" stays).
\<close>

fun permitted :: "app \<Rightarrow> event \<Rightarrow> bool" where
  "permitted w (ImageChange (Some f)) \<longleftrightarrow> imageFile w = None"
| "permitted w (Drop (Some f)) \<longleftrightarrow> imageFile w = None"
| "permitted w GeneratePrompt \<longleftrightarrow> inFlight w = []"
| "permitted w Reset \<longleftrightarrow> inFlight w = []"
| "permitted w ev \<longleftrightarrow> True"

fun orderly :: "app \<Rightarrow> event list \<Rightarrow> bool" where
  "orderly w [] \<longleftrightarrow> True"
| "orderly w (ev # evs) \<longleftrightarrow> permitted w ev \<and> orderly (step ev w) evs"

text \<open>
  The events the component can receive in a state: the handlers the rendered view has
  attached there, the settlement of a suspended call, and the passing of time. The upload
  zone with its drag handlers and its file input (disabled under the status
  \<open>generating\<close>) is rendered under \<open>{!imageFile && ...}\<close>; "Remove Image" under
  \<open>{imageUrl && ...}\<close>; "Generate Prompt" under \<open>{status === 'previewing' && ...}\<close>;
  the copy button and "Regenerate" under
  \<open>{generatedPrompt && status === 'success' && ...}\<close>.
\<close>

fun offered :: "app \<Rightarrow> event \<Rightarrow> bool" where
  "offered w (ImageChange fo) \<longleftrightarrow> imageFile w = None \<and> status w \<noteq> Generating"
| "offered w DragOver \<longleftrightarrow> imageFile w = None"
| "offered w (DragEnter hasItems) \<longleftrightarrow> imageFile w = None"
| "offered w DragLeave \<longleftrightarrow> imageFile w = None"
| "offered w (Drop fo) \<longleftrightarrow> imageFile w = None"
| "offered w GeneratePrompt \<longleftrightarrow>
     status w = Previewing \<or> (generatedPrompt w \<noteq> [] \<and> status w = Success)"
| "offered w (Settle i encoded generateContent) \<longleftrightarrow> i < length (inFlight w)"
| "offered w CopyPrompt \<longleftrightarrow> generatedPrompt w \<noteq> [] \<and> status w = Success"
| "offered w Reset \<longleftrightarrow> imageUrl w \<noteq> None"
| "offered w (Elapse d) \<longleftrightarrow> True"

text \<open>
  The invariant behind the mutual exclusion of the two text fields in orderly runs: at
  most one call is suspended; a generated text is only there without an error message and
  with an image; while a call is suspended both fields are empty.
\<close>

definition exclusive :: "app \<Rightarrow> bool" where
  "exclusive w \<longleftrightarrow>
     length (inFlight w) \<le> 1 \<and>
     (generatedPrompt w \<noteq> [] \<longrightarrow> error w = [] \<and> imageFile w \<noteq> None) \<and>
     (inFlight w \<noteq> [] \<longrightarrow> generatedPrompt w = [] \<and> error w = [] \<and> imageFile w \<noteq> None)"

text \<open>
  The display handle follows the image: \<open>imageUrl\<close> is set exactly when an image is
  stored, and then it is an object URL that has not been revoked.
\<close>

definition handle_bound :: "app \<Rightarrow> bool" where
  "handle_bound w \<longleftrightarrow>
     (imageFile w = None \<longleftrightarrow> imageUrl w = None) \<and>
     (\<forall>u. imageUrl w = Some u \<longrightarrow> u \<in> set (objectUrls w))"

section \<open>Basic facts\<close>

lemmas handler_defs =
  handleImageChange_def processFile_def handleGeneratePrompt_def settle_def
  handleGeneratePrompt_resume_def handler_catch_def handleCopyPrompt_def handleReset_def
  handleDragEnter_def handleDragLeave_def handleDrop_def elapse_def

lemmas example_defs =
  photo_png_def notes_txt_def barn_def initial_def startsWith_def js_def
  generatePromptFromImage_def responseText_def client_catch_def trim_def isWhiteSpace_def

lemma render_keeps:
  "imageFile (render old w) = imageFile w"
  "generatedPrompt (render old w) = generatedPrompt w"
  "error (render old w) = error w"
  "status (render old w) = status w"
  "copySuccess (render old w) = copySuccess w"
  "isDragging (render old w) = isDragging w"
  "clipboard (render old w) = clipboard w"
  "clock (render old w) = clock w"
  "timers (render old w) = timers w"
  "inFlight (render old w) = inFlight w"
  "clientCalls (render old w) = clientCalls w"
  by (simp_all add: render_def split: option.split)

lemma run_append: "run (xs @ ys) w = run ys (run xs w)"
  by (induction xs arbitrary: w) simp_all

lemma run_invariant:
  assumes "P w" and "\<And>v ev. P v \<Longrightarrow> P (step ev v)"
  shows "P (run evs w)"
  using assms(1) by (induction evs arbitrary: w) (simp_all add: assms(2))

text \<open>The scenario of an image, a generation and its text, step by step.\<close>

lemma scenario_photo:
  "status (run [ImageChange (Some photo_png)] initial) = Previewing \<and>
   status (run [ImageChange (Some photo_png), GeneratePrompt] initial) = Generating \<and>
   status (run [ImageChange (Some photo_png), GeneratePrompt,
                Settle 0 (Inr (js ''QUJD'')) barn] initial) = Success \<and>
   generatedPrompt (run [ImageChange (Some photo_png), GeneratePrompt,
                Settle 0 (Inr (js ''QUJD'')) barn] initial) =
     js ''A weathered red barn under a stormy sky''"
  by (simp add: step_def render_def handler_defs example_defs)

subsection \<open>\<open>trim\<close> removes the whitespace at both ends, and nothing else\<close>

lemma dropWhile_rev_decomp:
  "xs = rev (dropWhile P (rev xs)) @ rev (takeWhile P (rev xs))"
proof -
  have "xs = rev (takeWhile P (rev xs) @ dropWhile P (rev xs))"
    by (simp only: takeWhile_dropWhile_id rev_rev_ident)
  also have "\<dots> = rev (dropWhile P (rev xs)) @ rev (takeWhile P (rev xs))"
    by (rule rev_append)
  finally show ?thesis .
qed

lemma trim_decomp:
  "raw = takeWhile isWhiteSpace raw @ trim raw @
         rev (takeWhile isWhiteSpace (rev (dropWhile isWhiteSpace raw)))"
proof -
  have "raw = takeWhile isWhiteSpace raw @ dropWhile isWhiteSpace raw" by simp
  also have "dropWhile isWhiteSpace raw = trim raw @
         rev (takeWhile isWhiteSpace (rev (dropWhile isWhiteSpace raw)))"
    unfolding trim_def by (rule dropWhile_rev_decomp)
  finally show ?thesis .
qed

lemma trim_last: "trim raw \<noteq> [] \<Longrightarrow> \<not> isWhiteSpace (last (trim raw))"
proof -
  assume ne: "trim raw \<noteq> []"
  let ?d = "dropWhile isWhiteSpace (rev (dropWhile isWhiteSpace raw))"
  from ne have "?d \<noteq> []" by (simp add: trim_def)
  then have "\<not> isWhiteSpace (hd ?d)" by (rule hd_dropWhile)
  moreover from \<open>?d \<noteq> []\<close> have "last (rev ?d) = hd ?d" by (simp add: last_rev)
  ultimately show ?thesis by (simp add: trim_def)
qed

lemma trim_hd: "trim raw \<noteq> [] \<Longrightarrow> \<not> isWhiteSpace (hd (trim raw))"
proof -
  assume ne: "trim raw \<noteq> []"
  let ?x = "dropWhile isWhiteSpace raw"
  have x: "?x = trim raw @ rev (takeWhile isWhiteSpace (rev ?x))"
    unfolding trim_def by (rule dropWhile_rev_decomp)
  with ne have "?x \<noteq> []" by (metis append_is_Nil_conv)
  then have "\<not> isWhiteSpace (hd ?x)" by (rule hd_dropWhile)
  moreover from x ne have "hd ?x = hd (trim raw)" by (metis hd_append2)
  ultimately show ?thesis by simp
qed

lemma trim_stripped: "stripped raw (trim raw)"
proof -
  have "list_all isWhiteSpace (takeWhile isWhiteSpace raw)"
    by (simp add: list_all_iff) (meson set_takeWhileD)
  moreover have "list_all isWhiteSpace
      (rev (takeWhile isWhiteSpace (rev (dropWhile isWhiteSpace raw))))"
    by (simp add: list_all_iff) (meson set_takeWhileD)
  ultimately show ?thesis
    unfolding stripped_def using trim_decomp [of raw] trim_hd [of raw] trim_last [of raw]
    by blast
qed

lemma dropWhile_keeps: "xs \<noteq> [] \<Longrightarrow> \<not> P (hd xs) \<Longrightarrow> dropWhile P xs = xs"
  by (cases xs) simp_all

lemma trim_idem: "trim (trim raw) = trim raw"
proof (cases "trim raw = []")
  case True
  have "trim [] = []" by (simp add: trim_def)
  with True show ?thesis by simp
next
  case False
  let ?t = "trim raw"
  from False have lead: "dropWhile isWhiteSpace ?t = ?t"
    using trim_hd [of raw] by (simp add: dropWhile_keeps)
  from False have "rev ?t \<noteq> []" and "hd (rev ?t) = last ?t"
    by (simp_all add: hd_rev)
  with False have trail: "dropWhile isWhiteSpace (rev ?t) = rev ?t"
    using trim_last [of raw] by (simp add: dropWhile_keeps)
  have "trim ?t = rev (dropWhile isWhiteSpace (rev (dropWhile isWhiteSpace ?t)))"
    by (simp only: trim_def)
  also have "\<dots> = ?t" by (simp only: lead trail rev_rev_ident)
  finally show ?thesis .
qed

text \<open>So \<open>stripped\<close> and \<open>trim\<close> say the same.\<close>

lemma stripped_unique:
  assumes "stripped raw t"
  shows "t = trim raw"
proof -
  from assms obtain pre suf where raw: "raw = pre @ t @ suf"
    and pre: "\<forall>c\<in>set pre. isWhiteSpace c" and suf: "\<forall>c\<in>set suf. isWhiteSpace c"
    and ends: "t \<noteq> [] \<longrightarrow> \<not> isWhiteSpace (hd t) \<and> \<not> isWhiteSpace (last t)"
    by (auto simp: stripped_def list_all_iff)
  show ?thesis
  proof (cases "t = []")
    case True
    with raw pre suf have "\<forall>c\<in>set raw. isWhiteSpace c" by auto
    then have "dropWhile isWhiteSpace raw = []" by (simp only: dropWhile_eq_Nil_conv)
    then have "trim raw = rev (dropWhile isWhiteSpace (rev []))" by (simp only: trim_def)
    with True show ?thesis by simp
  next
    case False
    with ends have h: "\<not> isWhiteSpace (hd t)" and l: "\<not> isWhiteSpace (last t)" by simp_all
    from False h have "dropWhile isWhiteSpace (t @ suf) = t @ suf"
      by (simp add: dropWhile_keeps)
    moreover from pre have "dropWhile isWhiteSpace (pre @ t @ suf) = dropWhile isWhiteSpace (t @ suf)"
      by (intro dropWhile_append2) simp
    ultimately have lead: "dropWhile isWhiteSpace raw = t @ suf"
      using raw by simp
    from False l have "dropWhile isWhiteSpace (rev t) = rev t"
      by (simp add: dropWhile_keeps hd_rev)
    moreover from suf have "dropWhile isWhiteSpace (rev suf @ rev t) = dropWhile isWhiteSpace (rev t)"
      by (intro dropWhile_append2) simp
    ultimately have "dropWhile isWhiteSpace (rev (t @ suf)) = rev t"
      by simp
    with lead show ?thesis by (simp add: trim_def)
  qed
qed

lemma stripped_iff: "stripped raw t \<longleftrightarrow> t = trim raw"
  using stripped_unique trim_stripped by blast

lemma client_result:
  "generatePromptFromImage generateContent d m = Inr t \<Longrightarrow>
   \<exists>ro raw. generateContent (clientRequest d m) = Resolved ro \<and>
            responseText ro = Some raw \<and> raw \<noteq> [] \<and> t = trim raw"
  by (auto simp: generatePromptFromImage_def responseText_def
           split: api_result.splits option.splits if_splits)

lemma late_settle:
  assumes "i < length (inFlight w)"
  shows "clientCalls (settle i (Inr base64Image) generateContent w) =
           clientCalls w @ [(base64Image, type (inFlight w ! i))] \<and>
         (generatePromptFromImage generateContent base64Image (type (inFlight w ! i)) = Inr t \<longrightarrow>
            status (settle i (Inr base64Image) generateContent w) = Success \<and>
            generatedPrompt (settle i (Inr base64Image) generateContent w) = t)"
  using assms
  by (simp add: settle_def handleGeneratePrompt_resume_def handler_catch_def Let_def
      split: sum.split)

section \<open>Generation with an image stored\<close>

text \<open>
  Claim C1, as amended. \<open>handleGeneratePrompt\<close>, called while an image is stored, calls
  nothing before its first \<open>await\<close> and leaves exactly one suspended call. When the
  encoding of the file (\<open>fileToBase64\<close>) resolves, the Generation Client is called exactly
  once, with the encoded data and the media type of the file; if that call resolves with a
  text \<open>t\<close>, the state is \<open>Success\<close>, \<open>generatedPrompt\<close> is \<open>t\<close>, and \<open>t\<close> is the text of
  the API response with its leading and trailing whitespace removed (and has none left to
  remove). When the encoding rejects, the Client is not called and the state is \<open>Error\<close>.
\<close>

theorem generation_calls_client_once:
  assumes "imageFile w = Some f"
  shows "clientCalls (handleGeneratePrompt w) = clientCalls w \<and>
         inFlight (handleGeneratePrompt w) = inFlight w @ [f] \<and>
         (let w' = settle (length (inFlight w)) (Inr base64Image) generateContent
                     (handleGeneratePrompt w)
          in clientCalls w' = clientCalls w @ [(base64Image, type f)] \<and>
             inFlight w' = inFlight w \<and>
             (\<forall>t. generatePromptFromImage generateContent base64Image (type f) = Inr t \<longrightarrow>
                  status w' = Success \<and> generatedPrompt w' = t \<and> trim t = t \<and>
                  (\<exists>ro raw. generateContent (clientRequest base64Image (type f)) = Resolved ro \<and>
                            responseText ro = Some raw \<and> t = trim raw \<and> stripped raw t))) \<and>
         (let w' = settle (length (inFlight w)) (Inl err) generateContent
                     (handleGeneratePrompt w)
          in clientCalls w' = clientCalls w \<and> inFlight w' = inFlight w \<and> status w' = Error)"
proof -
  let ?w1 = "handleGeneratePrompt w"
  have start: "clientCalls ?w1 = clientCalls w" "inFlight ?w1 = inFlight w @ [f]"
    using assms by (simp_all add: handleGeneratePrompt_def)
  have calls: "clientCalls (settle (length (inFlight w)) (Inr base64Image) generateContent ?w1)
               = clientCalls w @ [(base64Image, type f)]"
    and flight: "inFlight (settle (length (inFlight w)) (Inr base64Image) generateContent ?w1)
               = inFlight w"
    using assms
    by (simp_all add: handleGeneratePrompt_def settle_def handleGeneratePrompt_resume_def
        handler_catch_def Let_def split: sum.split)
  have ok: "status (settle (length (inFlight w)) (Inr base64Image) generateContent ?w1) = Success \<and>
            generatedPrompt (settle (length (inFlight w)) (Inr base64Image) generateContent ?w1) = t"
    if "generatePromptFromImage generateContent base64Image (type f) = Inr t" for t
    using assms that
    by (simp add: handleGeneratePrompt_def settle_def handleGeneratePrompt_resume_def Let_def)
  have raw: "trim t = t \<and>
             (\<exists>ro raw. generateContent (clientRequest base64Image (type f)) = Resolved ro \<and>
                       responseText ro = Some raw \<and> t = trim raw \<and> stripped raw t)"
    if "generatePromptFromImage generateContent base64Image (type f) = Inr t" for t
    using client_result [OF that] trim_stripped trim_idem by blast
  have rejected:
    "clientCalls (settle (length (inFlight w)) (Inl err) generateContent ?w1) = clientCalls w"
    "inFlight (settle (length (inFlight w)) (Inl err) generateContent ?w1) = inFlight w"
    "status (settle (length (inFlight w)) (Inl err) generateContent ?w1) = Error"
    using assms
    by (simp_all add: handleGeneratePrompt_def settle_def handleGeneratePrompt_resume_def
        handler_catch_def Let_def)
  show ?thesis
    unfolding Let_def using start calls flight ok raw rejected by blast
qed

text \<open>
  The theorem of C1 at the stored \<open>photo.png\<close>, an encoding that resolves and a response
  with whitespace around its text.
\<close>

theorem generation_calls_client_once_witness:
  "imageFile (step (ImageChange (Some photo_png)) initial) = Some photo_png \<and>
   generatePromptFromImage barn (js ''QUJD'') (type photo_png) =
     Inr (js ''A weathered red barn under a stormy sky'') \<and>
   clientCalls (settle (length (inFlight (step (ImageChange (Some photo_png)) initial)))
                  (Inr (js ''QUJD'')) barn
                  (handleGeneratePrompt (step (ImageChange (Some photo_png)) initial))) =
     clientCalls (step (ImageChange (Some photo_png)) initial) @ [(js ''QUJD'', type photo_png)] \<and>
   status (settle (length (inFlight (step (ImageChange (Some photo_png)) initial)))
                  (Inr (js ''QUJD'')) barn
                  (handleGeneratePrompt (step (ImageChange (Some photo_png)) initial))) = Success \<and>
   generatedPrompt (settle (length (inFlight (step (ImageChange (Some photo_png)) initial)))
                  (Inr (js ''QUJD'')) barn
                  (handleGeneratePrompt (step (ImageChange (Some photo_png)) initial))) =
     js ''A weathered red barn under a stormy sky''"
proof -
  let ?w = "step (ImageChange (Some photo_png)) initial"
  have h: "imageFile ?w = Some photo_png"
    by (simp add: step_def render_def handler_defs example_defs)
  have g: "generatePromptFromImage barn (js ''QUJD'') (type photo_png) =
     Inr (js ''A weathered red barn under a stormy sky'')"
    by (simp add: example_defs)
  from generation_calls_client_once [OF h, of "js ''QUJD''" barn OtherValue] g h
  show ?thesis unfolding Let_def by blast
qed

text \<open>
  Claim C1 as stated fails where the encoding rejects: \<open>handleGeneratePrompt\<close> is called
  with \<open>photo.png\<close> stored, the call has completed (nothing is suspended any more), and
  the Generation Client has not been called at all.
\<close>

theorem encoding_failure_skips_client:
  "imageFile (run [ImageChange (Some photo_png)] initial) = Some photo_png \<and>
   clientCalls (run [ImageChange (Some photo_png), GeneratePrompt,
                     Settle 0 (Inl OtherValue) barn] initial) = [] \<and>
   inFlight (run [ImageChange (Some photo_png), GeneratePrompt,
                  Settle 0 (Inl OtherValue) barn] initial) = [] \<and>
   error (run [ImageChange (Some photo_png), GeneratePrompt,
                  Settle 0 (Inl OtherValue) barn] initial) =
     js ''Failed to generate prompt: An unknown error occurred.''"
  by (simp add: step_def render_def handleImageChange_def processFile_def
      handleGeneratePrompt_def settle_def handleGeneratePrompt_resume_def handler_catch_def
      photo_png_def initial_def startsWith_def js_def)

section \<open>Submitting a file that is not an image\<close>

text \<open>
  Claim C2. For every file whose declared media type does not start with \<open>image/\<close>,
  \<open>processFile\<close> (reached from the picker and from a drop alike) sets the status to
  \<open>Error\<close>, the error message to exactly "Please select a valid image file.", and leaves
  no image stored.
\<close>

theorem processFile_rejects_other_types:
  assumes "\<not> startsWith (type f) (js ''image/'')"
  shows "status (processFile f w) = Error \<and>
         error (processFile f w) = js ''Please select a valid image file.'' \<and>
         imageFile (processFile f w) = None \<and>
         handleImageChange (Some f) w = processFile f w \<and>
         status (handleDrop (Some f) w) = Error \<and>
         error (handleDrop (Some f) w) = js ''Please select a valid image file.'' \<and>
         imageFile (handleDrop (Some f) w) = None"
  using assms by (simp add: processFile_def handleImageChange_def handleDrop_def Let_def)

text \<open>The theorem of C2 at \<open>notes.txt\<close>, of media type \<open>text/plain\<close>.\<close>

theorem processFile_rejects_other_types_witness:
  "\<not> startsWith (type notes_txt) (js ''image/'') \<and>
   status (processFile notes_txt initial) = Error \<and>
   error (processFile notes_txt initial) = js ''Please select a valid image file.'' \<and>
   imageFile (processFile notes_txt initial) = None"
proof -
  have h: "\<not> startsWith (type notes_txt) (js ''image/'')"
    by (simp add: notes_txt_def startsWith_def js_def)
  from processFile_rejects_other_types [OF h, of initial] h show ?thesis
    by blast
qed

section \<open>Generation without an image\<close>

text \<open>
  Claim C3. \<open>handleGeneratePrompt\<close>, called while no image is stored, sets the status to
  \<open>Error\<close> and the error message to exactly "Please select an image first."; the
  Generation Client is not called, and no call is left suspended that could call it later.
\<close>

theorem handleGeneratePrompt_needs_image:
  assumes "imageFile w = None"
  shows "status (handleGeneratePrompt w) = Error \<and>
         error (handleGeneratePrompt w) = js ''Please select an image first.'' \<and>
         clientCalls (handleGeneratePrompt w) = clientCalls w \<and>
         inFlight (handleGeneratePrompt w) = inFlight w"
  using assms by (simp add: handleGeneratePrompt_def)

text \<open>The theorem of C3 at the initial state.\<close>

theorem handleGeneratePrompt_needs_image_witness:
  "imageFile initial = None \<and> status (handleGeneratePrompt initial) = Error \<and>
   error (handleGeneratePrompt initial) = js ''Please select an image first.'' \<and>
   clientCalls (handleGeneratePrompt initial) = clientCalls initial"
proof -
  have h: "imageFile initial = None" by (simp add: initial_def)
  from handleGeneratePrompt_needs_image [OF h] h show ?thesis by blast
qed

section \<open>A rejected API call\<close>

text \<open>
  Claim C4. When generation is requested with an image stored and the API call of the
  Generation Client rejects with an \<open>Error\<close> of message "quota exceeded", the status
  is \<open>Error\<close> and the error message is exactly
  "Failed to generate prompt: Gemini API Error: quota exceeded".
\<close>

theorem quota_exceeded_message:
  assumes "imageFile w = Some f"
    and "generateContent (clientRequest base64Image (type f)) =
           Rejected (ErrorObj (js ''quota exceeded''))"
  shows "status (settle (length (inFlight w)) (Inr base64Image) generateContent
                   (handleGeneratePrompt w)) = Error \<and>
         error (settle (length (inFlight w)) (Inr base64Image) generateContent
                  (handleGeneratePrompt w)) =
           js ''Failed to generate prompt: Gemini API Error: quota exceeded''"
  using assms
  by (simp add: handleGeneratePrompt_def settle_def handleGeneratePrompt_resume_def
      generatePromptFromImage_def client_catch_def handler_catch_def js_def Let_def)

text \<open>The theorem of C4 at the stored \<open>photo.png\<close>.\<close>

theorem quota_exceeded_message_witness:
  "imageFile (step (ImageChange (Some photo_png)) initial) = Some photo_png \<and>
   quota (clientRequest (js ''QUJD'') (type photo_png)) =
     Rejected (ErrorObj (js ''quota exceeded'')) \<and>
   status (settle (length (inFlight (step (ImageChange (Some photo_png)) initial)))
             (Inr (js ''QUJD'')) quota
             (handleGeneratePrompt (step (ImageChange (Some photo_png)) initial))) = Error \<and>
   error (settle (length (inFlight (step (ImageChange (Some photo_png)) initial)))
             (Inr (js ''QUJD'')) quota
             (handleGeneratePrompt (step (ImageChange (Some photo_png)) initial))) =
     js ''Failed to generate prompt: Gemini API Error: quota exceeded''"
proof -
  let ?w = "step (ImageChange (Some photo_png)) initial"
  have h: "imageFile ?w = Some photo_png"
    by (simp add: step_def render_def handler_defs example_defs)
  have q: "quota (clientRequest (js ''QUJD'') (type photo_png)) =
           Rejected (ErrorObj (js ''quota exceeded''))"
    by (simp add: quota_def)
  from quota_exceeded_message
         [where generateContent = quota and base64Image = "js ''QUJD''", OF h q] h q
  show ?thesis by blast
qed

section \<open>Submitting an image\<close>

text \<open>
  Claim C5. For every file whose declared media type starts with \<open>image/\<close>,
  \<open>processFile\<close> (from the picker and from a drop alike) sets the status to
  \<open>Previewing\<close> whatever the state before, stores the file in place of any image stored
  before, and empties \<open>generatedPrompt\<close> and \<open>error\<close>.
\<close>

theorem processFile_accepts_images:
  assumes "startsWith (type f) (js ''image/'')"
  shows "status (processFile f w) = Previewing \<and>
         imageFile (processFile f w) = Some f \<and>
         generatedPrompt (processFile f w) = [] \<and>
         error (processFile f w) = [] \<and>
         handleImageChange (Some f) w = processFile f w \<and>
         status (handleDrop (Some f) w) = Previewing \<and>
         imageFile (handleDrop (Some f) w) = Some f \<and>
         generatedPrompt (handleDrop (Some f) w) = [] \<and>
         error (handleDrop (Some f) w) = []"
  using assms by (simp add: processFile_def handleImageChange_def handleDrop_def Let_def)

text \<open>The theorem of C5 at \<open>photo.png\<close>, submitted in an error state.\<close>

theorem processFile_accepts_images_witness:
  "startsWith (type photo_png) (js ''image/'') \<and>
   status (processFile photo_png (processFile notes_txt initial)) = Previewing \<and>
   imageFile (processFile photo_png (processFile notes_txt initial)) = Some photo_png \<and>
   generatedPrompt (processFile photo_png (processFile notes_txt initial)) = [] \<and>
   error (processFile photo_png (processFile notes_txt initial)) = []"
proof -
  have h: "startsWith (type photo_png) (js ''image/'')"
    by (simp add: photo_png_def startsWith_def js_def)
  from processFile_accepts_images [OF h, of "processFile notes_txt initial"] h
  show ?thesis by blast
qed

section \<open>Reset\<close>

lemma handle_urls:
  "ev \<noteq> Reset \<Longrightarrow>
   imageUrl (handle ev w) = imageUrl w \<and> objectUrls (handle ev w) = objectUrls w"
  by (cases ev)
     (auto simp: handler_defs Let_def split: option.splits sum.splits)

lemma handle_bound_step:
  assumes "handle_bound w"
  shows "handle_bound (step ev w)"
proof (cases "ev = Reset")
  case True
  with assms show ?thesis
    by (auto simp: handle_bound_def step_def render_def handleReset_def Let_def
        split: option.splits)
next
  case False
  from handle_urls [OF False, of w] assms show ?thesis
    by (auto simp: handle_bound_def step_def render_def split: option.splits)
qed

lemma handle_bound_run: "handle_bound (run evs initial)"
  by (rule run_invariant [where P = handle_bound])
     (simp_all add: handle_bound_step, simp add: handle_bound_def initial_def)

text \<open>
  Claim C6. From every state, \<open>handleReset\<close> sets the status to \<open>Idle\<close>, removes the
  stored image, empties \<open>generatedPrompt\<close> and \<open>error\<close>, and revokes the object URL held in
  \<open>imageUrl\<close>. In every state the component can reach, a stored image has such a URL, live
  until then; after the reset it is revoked and \<open>imageUrl\<close> is empty.
\<close>

theorem handleReset_returns_to_idle:
  "status (handleReset w) = Idle \<and> imageFile (handleReset w) = None \<and>
   generatedPrompt (handleReset w) = [] \<and> error (handleReset w) = [] \<and>
   (\<forall>u. imageUrl w = Some u \<longrightarrow> u \<notin> set (objectUrls (handleReset w))) \<and>
   (imageFile (run evs initial) \<noteq> None \<longrightarrow>
      (\<exists>u. imageUrl (run evs initial) = Some u \<and> u \<in> set (objectUrls (run evs initial)) \<and>
           u \<notin> set (objectUrls (step Reset (run evs initial))) \<and>
           imageUrl (step Reset (run evs initial)) = None))"
proof -
  let ?w = "run evs initial"
  have fields: "status (handleReset w) = Idle \<and> imageFile (handleReset w) = None \<and>
   generatedPrompt (handleReset w) = [] \<and> error (handleReset w) = [] \<and>
   (\<forall>u. imageUrl w = Some u \<longrightarrow> u \<notin> set (objectUrls (handleReset w)))"
    by (simp add: handleReset_def Let_def split: option.split)
  have "\<exists>u. imageUrl ?w = Some u \<and> u \<in> set (objectUrls ?w) \<and>
           u \<notin> set (objectUrls (step Reset ?w)) \<and> imageUrl (step Reset ?w) = None"
    if stored: "imageFile ?w \<noteq> None"
  proof -
    from handle_bound_run [of evs] stored obtain u
      where u: "imageUrl ?w = Some u" "u \<in> set (objectUrls ?w)"
      by (auto simp: handle_bound_def)
    from stored u have "u \<notin> set (objectUrls (step Reset ?w))"
      and "imageUrl (step Reset ?w) = None"
      by (auto simp: step_def render_def handleReset_def Let_def)
    with u show ?thesis by blast
  qed
  with fields show ?thesis by blast
qed

text \<open>The theorem of C6 at the state with \<open>photo.png\<close> stored, whose object URL is 0.\<close>

theorem handleReset_returns_to_idle_witness:
  "imageFile (run [ImageChange (Some photo_png)] initial) \<noteq> None \<and>
   imageUrl (run [ImageChange (Some photo_png)] initial) = Some 0 \<and>
   (\<exists>u. imageUrl (run [ImageChange (Some photo_png)] initial) = Some u \<and>
        u \<in> set (objectUrls (run [ImageChange (Some photo_png)] initial)) \<and>
        u \<notin> set (objectUrls (step Reset (run [ImageChange (Some photo_png)] initial)))) \<and>
   0 \<notin> set (objectUrls (handleReset (run [ImageChange (Some photo_png)] initial))) \<and>
   status (handleReset (run [ImageChange (Some photo_png)] initial)) = Idle"
proof -
  let ?w = "run [ImageChange (Some photo_png)] initial"
  have h: "imageFile ?w \<noteq> None" and u: "imageUrl ?w = Some 0"
    by (simp_all add: step_def render_def handler_defs example_defs)
  from handleReset_returns_to_idle [of ?w "[ImageChange (Some photo_png)]"] h u
  show ?thesis by blast
qed

section \<open>Generated text and error message\<close>

lemma exclusive_handle:
  assumes "exclusive w" and "permitted w ev"
  shows "exclusive (handle ev w)"
proof (cases ev)
  case (ImageChange fo)
  with assms show ?thesis
    by (cases fo) (auto simp: exclusive_def handleImageChange_def processFile_def)
next
  case (Drop fo)
  with assms show ?thesis
    by (cases fo) (auto simp: exclusive_def handleDrop_def processFile_def Let_def)
next
  case GeneratePrompt
  with assms show ?thesis
    by (auto simp: exclusive_def handleGeneratePrompt_def split: option.splits)
next
  case (Settle i encoded generateContent)
  show ?thesis
  proof (cases "i < length (inFlight w)")
    case False
    with assms Settle show ?thesis by (simp add: settle_def)
  next
    case True
    with assms(1) have i: "i = 0" and one: "length (inFlight w) = 1"
      and clean: "generatedPrompt w = []" "error w = []" "imageFile w \<noteq> None"
      by (auto simp: exclusive_def)
    from one have rest: "take i (inFlight w) @ drop (Suc i) (inFlight w) = []"
      using i by simp
    show ?thesis
      unfolding Settle handle.simps settle_def using True rest clean
      by (auto simp: exclusive_def handleGeneratePrompt_resume_def handler_catch_def Let_def
          split: sum.splits)
  qed
next
  case CopyPrompt
  with assms show ?thesis by (auto simp: exclusive_def handleCopyPrompt_def)
next
  case Reset
  with assms show ?thesis
    by (auto simp: exclusive_def handleReset_def Let_def split: option.splits)
next
  case (Elapse d)
  with assms show ?thesis by (auto simp: exclusive_def elapse_def Let_def)
qed (use assms in \<open>auto simp: exclusive_def handleDragEnter_def handleDragLeave_def\<close>)

lemma exclusive_step:
  "exclusive w \<Longrightarrow> permitted w ev \<Longrightarrow> exclusive (step ev w)"
  using exclusive_handle [of w ev]
  by (simp add: step_def exclusive_def render_keeps)

lemma exclusive_run:
  "exclusive w \<Longrightarrow> orderly w evs \<Longrightarrow> exclusive (run evs w)"
  by (induction evs arbitrary: w) (simp_all add: exclusive_step)

text \<open>
  Claim C7, as amended. In every state reached from the initial state by a sequence of
  events in which a file is submitted only while no image is stored, and no generation is
  requested and no reset made while a call of \<open>handleGeneratePrompt\<close> is still suspended,
  \<open>generatedPrompt\<close> and \<open>error\<close> are not both non-empty.
\<close>

theorem orderly_text_or_error:
  assumes "orderly initial evs"
  shows "generatedPrompt (run evs initial) = [] \<or> error (run evs initial) = []"
proof -
  have "exclusive initial" by (simp add: exclusive_def initial_def)
  then have "exclusive (run evs initial)" using assms by (rule exclusive_run)
  then show ?thesis by (auto simp: exclusive_def)
qed

text \<open>
  The theorem of C7 at an orderly session: an image, a generation that succeeds, a copy,
  a reset and a text file dropped.
\<close>

theorem orderly_text_or_error_witness:
  "orderly initial [ImageChange (Some photo_png), GeneratePrompt,
                    Settle 0 (Inr (js ''QUJD'')) barn, CopyPrompt, Reset,
                    Drop (Some notes_txt)] \<and>
   (generatedPrompt (run [ImageChange (Some photo_png), GeneratePrompt,
                    Settle 0 (Inr (js ''QUJD'')) barn, CopyPrompt, Reset,
                    Drop (Some notes_txt)] initial) = [] \<or>
    error (run [ImageChange (Some photo_png), GeneratePrompt,
                    Settle 0 (Inr (js ''QUJD'')) barn, CopyPrompt, Reset,
                    Drop (Some notes_txt)] initial) = [])"
proof -
  have h: "orderly initial [ImageChange (Some photo_png), GeneratePrompt,
                    Settle 0 (Inr (js ''QUJD'')) barn, CopyPrompt, Reset,
                    Drop (Some notes_txt)]"
    by (simp add: step_def render_def handler_defs example_defs)
  from orderly_text_or_error [OF h] h show ?thesis by blast
qed

text \<open>
  Claim C7 as stated fails: the image is removed while the generation is pending, a text
  file is dropped on the upload zone, and then the pending generation resolves. Every step
  is one the rendered view offers. The state has a generated text and an error message.
\<close>

theorem stale_response_text_and_error:
  "generatedPrompt (run [ImageChange (Some photo_png), GeneratePrompt, Reset,
                         Drop (Some notes_txt), Settle 0 (Inr (js ''QUJD'')) barn] initial)
     = js ''A weathered red barn under a stormy sky'' \<and>
   error (run [ImageChange (Some photo_png), GeneratePrompt, Reset,
                         Drop (Some notes_txt), Settle 0 (Inr (js ''QUJD'')) barn] initial)
     = js ''Please select a valid image file.'' \<and>
   \<not> (generatedPrompt (run [ImageChange (Some photo_png), GeneratePrompt, Reset,
                         Drop (Some notes_txt), Settle 0 (Inr (js ''QUJD'')) barn] initial) = [] \<or>
      error (run [ImageChange (Some photo_png), GeneratePrompt, Reset,
                         Drop (Some notes_txt), Settle 0 (Inr (js ''QUJD'')) barn] initial) = [])"
  by (simp add: step_def render_def handler_defs example_defs)

text \<open>
  Each of the other two conditions of an orderly sequence is needed as well: a text file
  submitted over a result, and a second generation requested while the first is pending.
\<close>

lemma submit_over_result_text_and_error:
  "generatedPrompt (run [ImageChange (Some photo_png), GeneratePrompt,
                         Settle 0 (Inr (js ''QUJD'')) barn, Drop (Some notes_txt)] initial) \<noteq> [] \<and>
   error (run [ImageChange (Some photo_png), GeneratePrompt,
                         Settle 0 (Inr (js ''QUJD'')) barn, Drop (Some notes_txt)] initial) \<noteq> []"
  by (simp add: step_def render_def handler_defs example_defs)

lemma reentrant_generation_text_and_error:
  "generatedPrompt (run [ImageChange (Some photo_png), GeneratePrompt, GeneratePrompt,
                         Settle 0 (Inr (js ''QUJD'')) barn,
                         Settle 0 (Inl OtherValue) barn] initial) \<noteq> [] \<and>
   error (run [ImageChange (Some photo_png), GeneratePrompt, GeneratePrompt,
                         Settle 0 (Inr (js ''QUJD'')) barn,
                         Settle 0 (Inl OtherValue) barn] initial) \<noteq> []"
  by (simp add: step_def render_def handler_defs example_defs)

section \<open>When the image is cleared\<close>

lemma handle_clears_image:
  assumes "imageFile w \<noteq> None" and "imageFile (handle ev w) = None"
  shows "(ev = Reset \<and> status (handle ev w) = Idle) \<or>
         ((\<exists>f. (ev = ImageChange (Some f) \<or> ev = Drop (Some f)) \<and>
               \<not> startsWith (type f) (js ''image/'')) \<and>
          status (handle ev w) = Error)"
proof (cases ev)
  case (ImageChange fo)
  with assms show ?thesis
    by (cases fo) (auto simp: handleImageChange_def processFile_def split: if_splits)
next
  case (Drop fo)
  with assms show ?thesis
    by (cases fo) (auto simp: handleDrop_def processFile_def Let_def split: if_splits)
next
  case GeneratePrompt
  with assms show ?thesis
    by (auto simp: handleGeneratePrompt_def split: option.splits)
next
  case (Settle i encoded generateContent)
  with assms show ?thesis
    by (auto simp: settle_def handleGeneratePrompt_resume_def handler_catch_def Let_def
        split: if_splits sum.splits)
next
  case CopyPrompt
  with assms show ?thesis by (auto simp: handleCopyPrompt_def split: if_splits)
next
  case Reset
  then show ?thesis by (simp add: handleReset_def Let_def split: option.split)
next
  case (Elapse d)
  with assms show ?thesis by (simp add: elapse_def Let_def)
qed (use assms in \<open>auto simp: handleDragEnter_def handleDragLeave_def split: if_splits\<close>)

lemma handle_into_idle:
  assumes "status (handle ev w) = Idle" and "status w \<noteq> Idle"
  shows "ev = Reset"
proof (cases ev)
  case (ImageChange fo)
  with assms show ?thesis
    by (cases fo) (auto simp: handleImageChange_def processFile_def split: if_splits)
next
  case (Drop fo)
  with assms show ?thesis
    by (cases fo) (auto simp: handleDrop_def processFile_def Let_def split: if_splits)
next
  case GeneratePrompt
  with assms show ?thesis
    by (auto simp: handleGeneratePrompt_def split: option.splits)
next
  case (Settle i encoded generateContent)
  with assms show ?thesis
    by (auto simp: settle_def handleGeneratePrompt_resume_def handler_catch_def Let_def
        split: if_splits sum.splits)
next
  case CopyPrompt
  with assms show ?thesis by (auto simp: handleCopyPrompt_def split: if_splits)
next
  case (Elapse d)
  with assms show ?thesis by (simp add: elapse_def Let_def)
qed (use assms in \<open>auto simp: handleDragEnter_def handleDragLeave_def split: if_splits\<close>)

lemma reset_idle_no_image:
  "status (handleReset w) = Idle \<and> imageFile (handleReset w) = None"
  by (simp add: handleReset_def Let_def split: option.split)

lemma idle_no_image_step:
  assumes "status w = Idle \<longrightarrow> imageFile w = None"
  shows "status (step ev w) = Idle \<longrightarrow> imageFile (step ev w) = None"
proof (cases "ev = Reset")
  case True
  then show ?thesis by (simp add: step_def render_keeps reset_idle_no_image)
next
  case False
  show ?thesis
  proof
    assume idle: "status (step ev w) = Idle"
    then have h: "status (handle ev w) = Idle" by (simp add: step_def render_keeps)
    with False have was: "status w = Idle" using handle_into_idle by blast
    with assms have none: "imageFile w = None" by simp
    have "imageFile (handle ev w) = None"
    proof (cases ev)
      case (ImageChange fo)
      with h none show ?thesis
        by (cases fo) (auto simp: handleImageChange_def processFile_def split: if_splits)
    next
      case (Drop fo)
      with h none show ?thesis
        by (cases fo) (auto simp: handleDrop_def processFile_def Let_def split: if_splits)
    next
      case GeneratePrompt
      with h none show ?thesis by (simp add: handleGeneratePrompt_def)
    next
      case (Settle i encoded generateContent)
      with h none show ?thesis
        by (auto simp: settle_def handleGeneratePrompt_resume_def handler_catch_def Let_def
            split: if_splits sum.splits)
    next
      case CopyPrompt
      with none show ?thesis by (simp add: handleCopyPrompt_def)
    next
      case Reset
      with False show ?thesis by simp
    next
      case (Elapse d)
      with none show ?thesis by (simp add: elapse_def Let_def)
    qed (use none in \<open>auto simp: handleDragEnter_def handleDragLeave_def\<close>)
    then show "imageFile (step ev w) = None" by (simp add: step_def render_keeps)
  qed
qed

lemma idle_no_image_run:
  "status (run evs initial) = Idle \<longrightarrow> imageFile (run evs initial) = None"
  by (rule run_invariant [where P = "\<lambda>w. status w = Idle \<longrightarrow> imageFile w = None"])
     (simp_all add: initial_def idle_no_image_step)

text \<open>
  Claim C8. Across every transition of the component, the stored image is cleared exactly
  when the status returns to \<open>Idle\<close>: an event the component can receive clears a stored
  image only by moving to \<open>Idle\<close> (it is the reset), and every transition into \<open>Idle\<close>
  is a reset and leaves no image stored, so that in every reachable state of status
  \<open>Idle\<close> no image is stored.
\<close>

theorem image_cleared_exactly_into_idle:
  "(offered w ev \<and> imageFile w \<noteq> None \<and> imageFile (step ev w) = None \<longrightarrow>
      ev = Reset \<and> status (step ev w) = Idle) \<and>
   (status w \<noteq> Idle \<and> status (step ev w) = Idle \<longrightarrow>
      ev = Reset \<and> imageFile (step ev w) = None) \<and>
   status (step Reset w) = Idle \<and> imageFile (step Reset w) = None \<and>
   (status (run evs initial) = Idle \<longrightarrow> imageFile (run evs initial) = None)"
proof -
  have a: "ev = Reset \<and> status (step ev w) = Idle"
    if off: "offered w ev" and stored: "imageFile w \<noteq> None"
      and cleared: "imageFile (step ev w) = None"
  proof -
    from cleared have "imageFile (handle ev w) = None" by (simp add: step_def render_keeps)
    with stored have "(ev = Reset \<and> status (handle ev w) = Idle) \<or>
         ((\<exists>f. (ev = ImageChange (Some f) \<or> ev = Drop (Some f)) \<and>
               \<not> startsWith (type f) (js ''image/'')) \<and>
          status (handle ev w) = Error)"
      by (rule handle_clears_image)
    moreover from off stored have "\<not> (\<exists>f. ev = ImageChange (Some f) \<or> ev = Drop (Some f))"
      by auto
    ultimately show ?thesis by (auto simp: step_def render_keeps)
  qed
  have r: "status (step Reset w) = Idle \<and> imageFile (step Reset w) = None"
    by (simp add: step_def render_keeps reset_idle_no_image)
  have b: "status w \<noteq> Idle \<and> status (step ev w) = Idle \<longrightarrow>
      ev = Reset \<and> imageFile (step ev w) = None"
    using handle_into_idle [of ev w] r by (auto simp: step_def render_keeps)
  from a b r idle_no_image_run show ?thesis by blast
qed

text \<open>The theorem of C8 at "Remove Image" in the state with \<open>photo.png\<close> stored.\<close>

theorem image_cleared_exactly_into_idle_witness:
  "offered (step (ImageChange (Some photo_png)) initial) Reset \<and>
   imageFile (step (ImageChange (Some photo_png)) initial) \<noteq> None \<and>
   imageFile (step Reset (step (ImageChange (Some photo_png)) initial)) = None \<and>
   status (step (ImageChange (Some photo_png)) initial) \<noteq> Idle \<and>
   status (step Reset (step (ImageChange (Some photo_png)) initial)) = Idle \<and>
   status (run [ImageChange (Some photo_png), Reset] initial) = Idle \<and>
   imageFile (run [ImageChange (Some photo_png), Reset] initial) = None"
proof -
  let ?w = "step (ImageChange (Some photo_png)) initial"
  have h1: "imageFile ?w \<noteq> None" and h2: "status ?w \<noteq> Idle"
    and h4: "offered ?w Reset"
    by (simp_all add: step_def render_def handler_defs example_defs)
  have h3: "status (run [ImageChange (Some photo_png), Reset] initial) = Idle"
    by (simp add: step_def render_def handler_defs example_defs Let_def)
  from image_cleared_exactly_into_idle
         [of ?w Reset "[ImageChange (Some photo_png), Reset]"] h1 h2 h3 h4
  show ?thesis by blast
qed

text \<open>
  The guard of the upload zone is part of this: \<open>processFile\<close> itself, applied to a text
  file in a state with an image stored, where the view has no upload zone, would remove
  the image on the way to \<open>Error\<close>.
\<close>

lemma unguarded_processFile_clears_image:
  "imageFile (processFile photo_png initial) = Some photo_png \<and>
   \<not> offered (processFile photo_png initial) (ImageChange (Some notes_txt)) \<and>
   imageFile (processFile notes_txt (processFile photo_png initial)) = None \<and>
   status (processFile notes_txt (processFile photo_png initial)) = Error"
  by (simp add: handler_defs example_defs)

section \<open>Copying the generated text\<close>

lemma duration_Cons: "duration (ev # evs) = duration [ev] + duration evs"
  by (cases ev) simp_all

lemma clock_step: "clock (step ev w) = clock w + duration [ev]"
  by (cases ev)
     (auto simp: step_def render_keeps handler_defs Let_def split: option.splits sum.splits)

lemma clock_run: "clock (run evs w) = clock w + duration evs"
proof (induction evs arbitrary: w)
  case Nil
  show ?case by simp
next
  case (Cons ev evs)
  with duration_Cons [of ev evs] show ?case by (simp add: clock_step)
qed

lemma timer_step:
  assumes "x \<in> set (timers w)" and "clock (step ev w) < x"
  shows "x \<in> set (timers (step ev w))"
  using assms
  by (cases ev)
     (auto simp: step_def render_keeps handler_defs Let_def split: option.splits sum.splits)

lemma timer_run:
  "x \<in> set (timers w) \<Longrightarrow> clock w + duration evs < x \<Longrightarrow> x \<in> set (timers (run evs w))"
proof (induction evs arbitrary: w)
  case Nil
  then show ?case by simp
next
  case (Cons ev evs)
  note d = duration_Cons [of ev evs]
  with Cons.prems have "clock (step ev w) < x" by (simp add: clock_step)
  with Cons.prems have "x \<in> set (timers (step ev w))" by (simp add: timer_step)
  moreover from Cons.prems d have "clock (step ev w) + duration evs < x"
    by (simp add: clock_step)
  ultimately show ?case using Cons.IH by simp
qed

lemma due_timer_clears:
  "x \<in> set (timers w) \<Longrightarrow> x \<le> clock w + d \<Longrightarrow> \<not> copySuccess (step (Elapse d) w)"
  by (auto simp: step_def render_keeps elapse_def Let_def filter_empty_conv)

text \<open>
  Claim C9. \<open>handleCopyPrompt\<close> with \<open>generatedPrompt\<close> empty changes nothing, the
  clipboard included. With \<open>generatedPrompt\<close> non-empty, the text handed to the clipboard
  is exactly \<open>generatedPrompt\<close>, \<open>copySuccess\<close> is true right after the call, and
  \<open>copySuccess\<close> is false when the clock reaches 2000 ms after the call, whatever events
  happen in between.
\<close>

theorem handleCopyPrompt_feedback:
  "(generatedPrompt w = [] \<longrightarrow> handleCopyPrompt w = w) \<and>
   (generatedPrompt w \<noteq> [] \<longrightarrow>
      clipboard (handleCopyPrompt w) = Some (generatedPrompt w) \<and>
      copySuccess (handleCopyPrompt w) \<and>
      \<not> copySuccess (elapse 2000 (handleCopyPrompt w)) \<and>
      (\<forall>evs. duration evs < 2000 \<longrightarrow>
         \<not> copySuccess (run (evs @ [Elapse (2000 - duration evs)]) (step CopyPrompt w))))"
proof -
  have later: "\<not> copySuccess (run (evs @ [Elapse (2000 - duration evs)]) (step CopyPrompt w))"
    if ne: "generatedPrompt w \<noteq> []" and short: "duration evs < 2000" for evs
  proof -
    let ?w1 = "step CopyPrompt w"
    let ?x = "clock w + 2000"
    have c1: "clock ?w1 = clock w" by (simp add: clock_step)
    from ne have "?x \<in> set (timers ?w1)"
      by (simp add: step_def render_keeps handleCopyPrompt_def)
    moreover from short c1 have "clock ?w1 + duration evs < ?x" by simp
    ultimately have "?x \<in> set (timers (run evs ?w1))" by (rule timer_run)
    moreover from short c1 have "?x \<le> clock (run evs ?w1) + (2000 - duration evs)"
      by (simp add: clock_run)
    ultimately have "\<not> copySuccess (step (Elapse (2000 - duration evs)) (run evs ?w1))"
      by (rule due_timer_clears)
    then show ?thesis by (simp add: run_append)
  qed
  have first: "generatedPrompt w \<noteq> [] \<Longrightarrow>
      clipboard (handleCopyPrompt w) = Some (generatedPrompt w) \<and>
      copySuccess (handleCopyPrompt w) \<and> \<not> copySuccess (elapse 2000 (handleCopyPrompt w))"
    by (simp add: handleCopyPrompt_def elapse_def Let_def)
  have noop: "generatedPrompt w = [] \<Longrightarrow> handleCopyPrompt w = w"
    by (simp add: handleCopyPrompt_def)
  from later first noop show ?thesis by blast
qed

text \<open>
  The theorem of C9 at the initial state, where there is nothing to copy, and at a state
  with a generated text, where the text is copied a second time 1500 ms after the first.
\<close>

theorem handleCopyPrompt_feedback_witness:
  "generatedPrompt initial = [] \<and> handleCopyPrompt initial = initial \<and>
   generatedPrompt (run [ImageChange (Some photo_png), GeneratePrompt,
                         Settle 0 (Inr (js ''QUJD'')) barn] initial) \<noteq> [] \<and>
   duration [Elapse 1500, CopyPrompt] < 2000 \<and>
   clipboard (handleCopyPrompt (run [ImageChange (Some photo_png), GeneratePrompt,
                         Settle 0 (Inr (js ''QUJD'')) barn] initial)) =
     Some (generatedPrompt (run [ImageChange (Some photo_png), GeneratePrompt,
                         Settle 0 (Inr (js ''QUJD'')) barn] initial)) \<and>
   copySuccess (handleCopyPrompt (run [ImageChange (Some photo_png), GeneratePrompt,
                         Settle 0 (Inr (js ''QUJD'')) barn] initial)) \<and>
   \<not> copySuccess (run ([Elapse 1500, CopyPrompt] @
                        [Elapse (2000 - duration [Elapse 1500, CopyPrompt])])
                   (step CopyPrompt (run [ImageChange (Some photo_png), GeneratePrompt,
                         Settle 0 (Inr (js ''QUJD'')) barn] initial)))"
proof -
  let ?w = "run [ImageChange (Some photo_png), GeneratePrompt,
                 Settle 0 (Inr (js ''QUJD'')) barn] initial"
  have e: "generatedPrompt initial = []" by (simp add: initial_def)
  have ne: "generatedPrompt ?w \<noteq> []"
    by (simp add: step_def render_def handler_defs example_defs)
  have d: "duration [Elapse 1500, CopyPrompt] < 2000" by simp
  from handleCopyPrompt_feedback [of initial] handleCopyPrompt_feedback [of ?w] e ne d
  show ?thesis by blast
qed

section \<open>An empty response\<close>

text \<open>
  Claim C10, as amended. For every call of \<open>generatePromptFromImage\<close> whose API call
  succeeds with no response, no text or an empty text, the call fails with the \<open>Error\<close>
  of message "Gemini API Error: The API response was empty or invalid.". The message names
  the empty response and differs from the one for an unknown error, but it carries the
  prefix of the service errors: it is the very error a rejection of the API call with the
  message "The API response was empty or invalid." gives, and no other rejection gives it.
\<close>

theorem empty_response_error:
  assumes "generateContent (clientRequest imageData mimeType) = Resolved ro"
    and "responseText ro = None"
  shows "generatePromptFromImage generateContent imageData mimeType =
           Inl (ErrorObj (js ''Gemini API Error: The API response was empty or invalid.'')) \<and>
         client_catch OtherValue \<noteq>
           ErrorObj (js ''Gemini API Error: The API response was empty or invalid.'') \<and>
         (\<forall>message. client_catch (ErrorObj message) =
              ErrorObj (js ''Gemini API Error: The API response was empty or invalid.'')
            \<longleftrightarrow> message = js ''The API response was empty or invalid.'')"
  using assms
  by (auto simp add: generatePromptFromImage_def client_catch_def emptyResponseMessage_def js_def)

text \<open>The theorem of C10 at a response without text.\<close>

theorem empty_response_error_witness:
  "no_text (clientRequest (js ''QUJD'') (js ''image/png'')) =
     Resolved (Some \<lparr>response_text = None\<rparr>) \<and>
   responseText (Some \<lparr>response_text = None\<rparr>) = None \<and>
   generatePromptFromImage no_text (js ''QUJD'') (js ''image/png'') =
     Inl (ErrorObj (js ''Gemini API Error: The API response was empty or invalid.''))"
proof -
  have h1: "no_text (clientRequest (js ''QUJD'') (js ''image/png'')) =
            Resolved (Some \<lparr>response_text = None\<rparr>)"
    by (simp add: no_text_def)
  have h2: "responseText (Some \<lparr>response_text = None\<rparr>) = None"
    by (simp add: responseText_def)
  from empty_response_error [where generateContent = no_text, OF h1 h2] h1 h2
  show ?thesis by blast
qed

text \<open>
  Claim C10 as stated fails: the error of an empty response is not distinct from the
  service errors. A call whose API call resolves with an empty text and a call whose API
  call rejects with the message "The API response was empty or invalid." fail alike.
\<close>

theorem empty_response_not_distinct:
  "generatePromptFromImage (\<lambda>req. Resolved (Some \<lparr>response_text = Some []\<rparr>))
     (js ''QUJD'') (js ''image/png'') =
   generatePromptFromImage
     (\<lambda>req. Rejected (ErrorObj (js ''The API response was empty or invalid.'')))
     (js ''QUJD'') (js ''image/png'')"
  by (simp add: generatePromptFromImage_def responseText_def client_catch_def
      emptyResponseMessage_def)

end
